theory Spec2Isabelle
  imports Complex_Main "HOL-Library.AList"
begin

section \<open>The camera manager (class CameraManager of app.py)\<close>

text \<open>
  A \<^verbatim>\<open>cv2.VideoCapture\<close> object is a handle, numbered in the order of construction.
  What the device answers when it is opened and read is not decided by the program, so it
  is an argument of the call: the constructor raises, \<^verbatim>\<open>isOpened()\<close> is false, the
  test read raises, the test read returns \<^verbatim>\<open>ret = False\<close>, or it returns a frame.
  Frames are opaque (\<open>'f\<close>).
\<close>

datatype source = Usb int | Url string

datatype 'f probe =
    Ctor_raises string
  | Not_opened
  | Read_raises string
  | Read_fails
  | Read_ok 'f

text \<open>
  A thread running \<^verbatim>\<open>_capture_loop\<close> is at one of four places of the loop, or has left
  it: before the test of the \<^verbatim>\<open>while\<close> condition, before \<^verbatim>\<open>self.camera.read()\<close>,
  before the assignment \<^verbatim>\<open>self.frame = frame\<close> (holding the frame just read), or in
  \<^verbatim>\<open>time.sleep(0.033)\<close>.
\<close>

datatype 'f loop_pc = At_while | At_read | At_write 'f | At_sleep | Exited

text \<open>
  The four attributes of the object, and three records of what the calls did to the
  world around it: the handles on which \<^verbatim>\<open>release()\<close> was called, the number of
  handles constructed, and the capture threads started, in the order of their start.
\<close>

record 'f camera_mgr =
  camera :: "nat option"
  camera_id :: "source option"
  is_streaming :: bool
  frame :: "'f option"
  released :: "nat list"
  created :: nat
  loops :: "'f loop_pc list"

definition init_mgr :: "'f camera_mgr" where
  "init_mgr = \<lparr>camera = None, camera_id = None, is_streaming = False, frame = None,
     released = [], created = 0, loops = []\<rparr>"

text \<open>\<^verbatim>\<open>if self.camera is not None: self.camera.release()\<close>\<close>

definition release_current :: "'f camera_mgr \<Rightarrow> 'f camera_mgr" where
  "release_current m =
     (case camera m of None \<Rightarrow> m | Some h \<Rightarrow> m\<lparr>released := h # released m\<rparr>)"

text \<open>\<^verbatim>\<open>self.camera = cv2.VideoCapture(...)\<close>, when the constructor returns.\<close>

definition new_capture :: "'f camera_mgr \<Rightarrow> 'f camera_mgr" where
  "new_capture m = m\<lparr>camera := Some (created m), created := Suc (created m)\<rparr>"

text \<open>\<^verbatim>\<open>threading.Thread(target=self._capture_loop, daemon=True).start()\<close>\<close>

definition start_loop :: "'f camera_mgr \<Rightarrow> 'f camera_mgr" where
  "start_loop m = m\<lparr>loops := loops m @ [At_while]\<rparr>"

text \<open>
  \<^verbatim>\<open>connect\<close> and \<^verbatim>\<open>connect_ip\<close> return the pair \<^verbatim>\<open>(success, message)\<close>; the
  \<^verbatim>\<open>except\<close> clause turns an exception into \<^verbatim>\<open>(False, str(e))\<close>. The frame of the
  test read is dropped.
\<close>

fun connect :: "int \<Rightarrow> 'f probe \<Rightarrow> 'f camera_mgr \<Rightarrow> 'f camera_mgr \<times> (bool \<times> string)" where
  "connect cid (Ctor_raises e) m = (release_current m, (False, e))"
| "connect cid Not_opened m =
     (new_capture (release_current m), (False, ''Cannot open camera''))"
| "connect cid (Read_raises e) m = (new_capture (release_current m), (False, e))"
| "connect cid Read_fails m =
     (new_capture (release_current m), (False, ''Cannot read from camera''))"
| "connect cid (Read_ok f) m =
     (start_loop ((new_capture (release_current m))
        \<lparr>camera_id := Some (Usb cid), is_streaming := True\<rparr>),
      (True, ''Camera connected''))"

fun connect_ip :: "string \<Rightarrow> 'f probe \<Rightarrow> 'f camera_mgr \<Rightarrow> 'f camera_mgr \<times> (bool \<times> string)" where
  "connect_ip url (Ctor_raises e) m = (release_current m, (False, e))"
| "connect_ip url Not_opened m =
     (new_capture (release_current m), (False, ''Cannot connect to IP camera''))"
| "connect_ip url (Read_raises e) m = (new_capture (release_current m), (False, e))"
| "connect_ip url Read_fails m =
     (new_capture (release_current m), (False, ''Cannot read from IP camera''))"
| "connect_ip url (Read_ok f) m =
     (start_loop ((new_capture (release_current m))
        \<lparr>camera_id := Some (Url url), is_streaming := True\<rparr>),
      (True, ''IP Camera connected''))"

definition disconnect :: "'f camera_mgr \<Rightarrow> 'f camera_mgr" where
  "disconnect m =
     (let m1 = m\<lparr>is_streaming := False\<rparr>;
          m2 = (case camera m1 of None \<Rightarrow> m1
                | Some h \<Rightarrow> m1\<lparr>released := h # released m1, camera := None\<rparr>)
      in m2\<lparr>camera_id := None, frame := None\<rparr>)"

text \<open>
  \<^verbatim>\<open>get_frame_base64\<close>: \<^verbatim>\<open>cv2.imencode\<close> returns \<^verbatim>\<open>(ret, jpeg)\<close>, here an option, and
  \<^verbatim>\<open>base64.b64encode(jpeg).decode('utf-8')\<close> is \<open>b64\<close>; both are library functions and
  arguments of the model.
\<close>

definition get_frame_base64 :: "('f \<Rightarrow> 'j option) \<Rightarrow> ('j \<Rightarrow> string) \<Rightarrow> 'f camera_mgr \<Rightarrow> string option" where
  "get_frame_base64 imencode b64 m =
     (case frame m of
        None \<Rightarrow> None
      | Some f \<Rightarrow> (case imencode f of Some jpeg \<Rightarrow> Some (b64 jpeg) | None \<Rightarrow> None))"

text \<open>The route \<^verbatim>\<open>/api/camera/status\<close>: the fields \<^verbatim>\<open>connected\<close> and \<^verbatim>\<open>camera_id\<close>.\<close>

definition camera_status :: "'f camera_mgr \<Rightarrow> bool \<times> source option" where
  "camera_status m = (camera m \<noteq> None, camera_id m)"

text \<open>
  One step of one capture thread. At the \<^verbatim>\<open>while\<close> test the thread leaves the loop when
  the condition is false. At the read, \<^verbatim>\<open>self.camera\<close> may have become \<^verbatim>\<open>None\<close> since
  the test: the attribute access raises and the thread dies. The result of the read,
  \<^verbatim>\<open>(ret, frame)\<close>, is the option \<open>r\<close>.
\<close>

fun loop_pc_step :: "'f option \<Rightarrow> 'f camera_mgr \<Rightarrow> 'f loop_pc \<Rightarrow> 'f loop_pc" where
  "loop_pc_step r m At_while =
     (if is_streaming m \<and> camera m \<noteq> None then At_read else Exited)"
| "loop_pc_step r m At_read =
     (case camera m of
        None \<Rightarrow> Exited
      | Some h \<Rightarrow> (case r of Some f \<Rightarrow> At_write f | None \<Rightarrow> At_sleep))"
| "loop_pc_step r m (At_write f) = At_sleep"
| "loop_pc_step r m At_sleep = At_while"
| "loop_pc_step r m Exited = Exited"

fun loop_write :: "'f loop_pc \<Rightarrow> 'f camera_mgr \<Rightarrow> 'f camera_mgr" where
  "loop_write (At_write f) m = m\<lparr>frame := Some f\<rparr>"
| "loop_write pc m = m"

definition loop_step :: "nat \<Rightarrow> 'f option \<Rightarrow> 'f camera_mgr \<Rightarrow> 'f camera_mgr" where
  "loop_step i r m =
     (if i < length (loops m)
      then (loop_write (loops m ! i) m)\<lparr>loops := (loops m)[i := loop_pc_step r m (loops m ! i)]\<rparr>
      else m)"

text \<open>The capture threads that have not left their loop.\<close>

definition alive :: "'f camera_mgr \<Rightarrow> nat" where
  "alive m = length (filter (\<lambda>pc. pc \<noteq> Exited) (loops m))"

text \<open>The places of the loop at which a thread holds no frame it has yet to assign.\<close>

fun no_read_pending :: "'f loop_pc \<Rightarrow> bool" where
  "no_read_pending (At_write f) = False"
| "no_read_pending pc = True"

text \<open>
  What can happen to the manager: a request calls one of its methods, or a capture thread
  takes a step.
\<close>

datatype 'f event =
    Connect int "'f probe"
  | Connect_ip string "'f probe"
  | Disconnect
  | Loop_step nat "'f option"

fun exec :: "'f event \<Rightarrow> 'f camera_mgr \<Rightarrow> 'f camera_mgr" where
  "exec (Connect cid p) m = fst (connect cid p m)"
| "exec (Connect_ip url p) m = fst (connect_ip url p m)"
| "exec Disconnect m = disconnect m"
| "exec (Loop_step i r) m = loop_step i r m"

definition run :: "'f event list \<Rightarrow> 'f camera_mgr \<Rightarrow> 'f camera_mgr" where
  "run es m = fold exec es m"


section \<open>Request bodies and the zone document\<close>

text \<open>
  \<^verbatim>\<open>request.get_json()\<close> and \<^verbatim>\<open>json.load\<close> return Python values built from JSON. A
  Python \<^verbatim>\<open>dict\<close> keeps its keys in insertion order and holds each key once: it is an
  association list. Python floats are read as reals.
\<close>

datatype json =
    JNull
  | JBool bool
  | JInt int
  | JFloat real
  | JStr string
  | JList "json list"
  | JDict "(string \<times> json) list"

datatype py_error = AttributeError | TypeError | ValueError | ZeroDivisionError

text \<open>\<^verbatim>\<open>data.get(key, default)\<close>: only a dict has the method.\<close>

fun dict_get :: "string \<Rightarrow> json \<Rightarrow> json \<Rightarrow> py_error + json" where
  "dict_get k d (JDict kvs) = Inr (case map_of kvs k of Some v \<Rightarrow> v | None \<Rightarrow> d)"
| "dict_get k d other = Inl AttributeError"

text \<open>
  \<^verbatim>\<open>obj[key] = v\<close> with a string key: a dict replaces the value of a key it has, where
  the key stands, and appends a new key; every other JSON value raises \<^verbatim>\<open>TypeError\<close>.
\<close>

fun dict_set :: "string \<Rightarrow> json \<Rightarrow> json \<Rightarrow> py_error + json" where
  "dict_set k v (JDict kvs) = Inr (JDict (AList.update k v kvs))"
| "dict_set k v other = Inl TypeError"

text \<open>Python's \<^verbatim>\<open>int()\<close> on a float truncates towards zero.\<close>

definition py_trunc :: "real \<Rightarrow> int" where
  "py_trunc r = (if 0 \<le> r then \<lfloor>r\<rfloor> else \<lceil>r\<rceil>)"

text \<open>
  \<^verbatim>\<open>int(x)\<close> on a value from a request body. How Python reads a string as an integer
  is the argument \<open>parse\<close> (\<open>None\<close> where it raises \<^verbatim>\<open>ValueError\<close>).
\<close>

fun py_int :: "(string \<Rightarrow> int option) \<Rightarrow> json \<Rightarrow> py_error + int" where
  "py_int parse (JInt n) = Inr n"
| "py_int parse (JBool b) = Inr (if b then 1 else 0)"
| "py_int parse (JFloat r) = Inr (py_trunc r)"
| "py_int parse (JStr s) = (case parse s of Some n \<Rightarrow> Inr n | None \<Rightarrow> Inl ValueError)"
| "py_int parse other = Inl TypeError"

subsection \<open>Zone persistence (routes /api/zones/save and /api/zones/load)\<close>

text \<open>
  The file \<^verbatim>\<open>zones_config.json\<close> is absent, or holds text on which \<^verbatim>\<open>json.load\<close>
  raises, or holds text on which \<^verbatim>\<open>json.load\<close> returns a value. The text itself is not
  modelled: \<^verbatim>\<open>json.dump(v, f)\<close> leaves the file that \<^verbatim>\<open>json.load\<close> reads back as \<open>v\<close>
  (the round trip of Python's json library on values that came from JSON), and opening
  the file for writing succeeds.
\<close>

datatype file_state = No_file | Corrupt_file | Json_file json

record zone_store =
  zone_config :: json
  zones_file :: file_state

definition init_zone_config :: json where
  "init_zone_config = JDict [(''zones'', JList []), (''image'', JNull)]"

definition init_zone_store :: zone_store where
  "init_zone_store = \<lparr>zone_config = init_zone_config, zones_file = No_file\<rparr>"

text \<open>
  \<^verbatim>\<open>save_zones\<close>: the right-hand side \<^verbatim>\<open>data.get('zones', [])\<close> is evaluated first, then
  the item assignment, then the file is written. An exception leaves the route before
  the file is opened; the store is then as it was.
\<close>

definition save_zones :: "json \<Rightarrow> zone_store \<Rightarrow> py_error + (zone_store \<times> (bool \<times> string))" where
  "save_zones data s =
     (case dict_get ''zones'' (JList []) data of
        Inl e \<Rightarrow> Inl e
      | Inr zs \<Rightarrow>
          (case dict_set ''zones'' zs (zone_config s) of
             Inl e \<Rightarrow> Inl e
           | Inr cfg \<Rightarrow>
               Inr (\<lparr>zone_config = cfg, zones_file = Json_file cfg\<rparr>, (True, ''Zones saved''))))"

text \<open>
  \<^verbatim>\<open>load_zones\<close>: the bare \<^verbatim>\<open>except: pass\<close> swallows every failure of reading, and the
  route answers with \<^verbatim>\<open>zone_config\<close> as it then is.
\<close>

definition load_zones :: "zone_store \<Rightarrow> zone_store \<times> json" where
  "load_zones s =
     (case zones_file s of
        Json_file v \<Rightarrow> (s\<lparr>zone_config := v\<rparr>, v)
      | No_file \<Rightarrow> (s, zone_config s)
      | Corrupt_file \<Rightarrow> (s, zone_config s))"

text \<open>
  The document the program itself builds (the literal that initialises \<^verbatim>\<open>zone_config\<close>,
  with its zones replaced), and the zones a request body carries.
\<close>

definition zone_doc :: "json \<Rightarrow> json" where
  "zone_doc zs = JDict [(''zones'', zs), (''image'', JNull)]"

definition requested_zones :: "(string \<times> json) list \<Rightarrow> json" where
  "requested_zones d = (case map_of d ''zones'' of Some zs \<Rightarrow> zs | None \<Rightarrow> JList [])"

text \<open>
  What can happen to the store: a request saves (a save that raises leaves the store
  as it was) or loads, or the file is removed or damaged from outside. A history is a
  list of such events from the start of the process, with no file yet. A file written
  by another program is not among these events: the histories reach only documents that
  \<^verbatim>\<open>save_zones\<close> wrote, and statements about every document are made on \<^verbatim>\<open>save_zones\<close>
  and \<^verbatim>\<open>load_zones\<close> themselves.
\<close>

datatype zone_event = Save json | Load | File_lost | File_damaged

fun zone_exec :: "zone_event \<Rightarrow> zone_store \<Rightarrow> zone_store" where
  "zone_exec (Save data) s = (case save_zones data s of Inl e \<Rightarrow> s | Inr (s', resp) \<Rightarrow> s')"
| "zone_exec Load s = fst (load_zones s)"
| "zone_exec File_lost s = s\<lparr>zones_file := No_file\<rparr>"
| "zone_exec File_damaged s = s\<lparr>zones_file := Corrupt_file\<rparr>"

definition zone_run :: "zone_event list \<Rightarrow> zone_store" where
  "zone_run es = fold zone_exec es init_zone_store"

text \<open>The stores whose document, in memory and in the file, was built by the program.\<close>

fun is_zone_doc :: "json \<Rightarrow> bool" where
  "is_zone_doc (JDict [(k1, zs), (k2, img)]) = (k1 = ''zones'' \<and> k2 = ''image'' \<and> img = JNull)"
| "is_zone_doc other = False"

fun own_file :: "file_state \<Rightarrow> bool" where
  "own_file (Json_file v) = is_zone_doc v"
| "own_file f = True"

definition own_store :: "zone_store \<Rightarrow> bool" where
  "own_store s = (is_zone_doc (zone_config s) \<and> own_file (zones_file s))"

section \<open>The training simulator\<close>

record training_status =
  is_training :: bool
  progress :: int
  epoch :: int
  total_epochs :: int
  loss :: real
  accuracy :: real
  message :: string

definition init_training_status :: training_status where
  "init_training_status = \<lparr>is_training = False, progress = 0, epoch = 0, total_epochs = 0,
     loss = 0, accuracy = 0, message = ''Not started''\<rparr>"

text \<open>
  \<^verbatim>\<open>start_training\<close> returns the new status, the answer \<^verbatim>\<open>(success, message)\<close> and, when
  it starts a thread, the arguments \<^verbatim>\<open>(training_type, epochs)\<close> of \<^verbatim>\<open>training_worker\<close>.
  The test of \<^verbatim>\<open>is_training\<close> comes before the request body is read.
\<close>

definition start_training ::
  "(string \<Rightarrow> int option) \<Rightarrow> json \<Rightarrow> training_status
     \<Rightarrow> py_error + (training_status \<times> (bool \<times> string) \<times> (json \<times> int) option)" where
  "start_training parse data st =
     (if is_training st then Inr (st, (False, ''Training already in progress''), None)
      else
        (case dict_get ''type'' (JStr ''detection'') data of
           Inl e \<Rightarrow> Inl e
         | Inr training_type \<Rightarrow>
             (case dict_get ''epochs'' (JInt 10) data of
                Inl e \<Rightarrow> Inl e
              | Inr ev \<Rightarrow>
                  (case py_int parse ev of
                     Inl e \<Rightarrow> Inl e
                   | Inr epochs \<Rightarrow>
                       Inr (\<lparr>is_training = True, progress = 0, epoch = 0,
                              total_epochs = epochs, loss = 0, accuracy = 0,
                              message = ''Starting training...''\<rparr>,
                            (True, ''Training started''),
                            Some (training_type, epochs))))))"

definition get_training_status :: "training_status \<Rightarrow> training_status" where
  "get_training_status st = st"

definition stop_training :: "training_status \<Rightarrow> training_status \<times> (bool \<times> string)" where
  "stop_training st =
     (st\<lparr>is_training := False, message := ''Training stopped by user''\<rparr>,
      (True, ''Training stopped''))"

text \<open>
  The thread running \<^verbatim>\<open>training_worker\<close> is at the head of the \<^verbatim>\<open>for\<close> loop with the
  next value of \<^verbatim>\<open>epoch\<close> (the epoch boundary, where \<^verbatim>\<open>is_training\<close> is tested), in
  \<^verbatim>\<open>time.sleep(2)\<close> of an epoch, at the test behind the loop, before the assignment of
  the completion message, in the \<^verbatim>\<open>finally\<close> clause, or finished.
\<close>

datatype worker_pc = W_loop int | W_sleep int | W_after | W_complete | W_finally | W_done

text \<open>
  One step of the worker. The two draws of \<^verbatim>\<open>np.random.random()\<close> in epoch \<open>i\<close> are
  \<open>rnd i\<close>, and \<open>fmt\<close> is the f-string of the epoch message. The five assignments
  that follow the sleep are one step: none of them reads what a request writes, and the
  message is assigned last. Python's \<^verbatim>\<open>/\<close> raises for \<^verbatim>\<open>epochs = 0\<close>, after \<^verbatim>\<open>epoch\<close>
  is assigned: the \<^verbatim>\<open>except\<close> clause writes the message and the \<^verbatim>\<open>finally\<close> clause
  follows. The quotient and the product of \<^verbatim>\<open>progress\<close> are taken over the reals, where
  Python rounds each to a double: the two agree whenever \<^verbatim>\<open>epoch + 1 = epochs\<close> (the
  value is 100) and for \<^verbatim>\<open>epochs = 3\<close> (33, 66, 100), and can differ by one elsewhere
  (\<^verbatim>\<open>epochs = 100\<close>, \<^verbatim>\<open>epoch + 1 = 29\<close>: 28 in Python, 29 here).
\<close>

fun worker_step ::
  "(int \<Rightarrow> real \<times> real) \<Rightarrow> (int \<Rightarrow> int \<Rightarrow> real \<Rightarrow> string) \<Rightarrow> int
     \<Rightarrow> training_status \<times> worker_pc \<Rightarrow> training_status \<times> worker_pc" where
  "worker_step rnd fmt epochs (st, W_loop i) =
     (if i < epochs then (if \<not> is_training st then (st, W_after) else (st, W_sleep i))
      else (st, W_after))"
| "worker_step rnd fmt epochs (st, W_sleep i) =
     (if epochs = 0
      then (st\<lparr>epoch := i + 1, message := ''Error: division by zero''\<rparr>, W_finally)
      else
        (let l = 2.5 - (of_int i * 0.2) + fst (rnd i) * 0.1
         in (st\<lparr>epoch := i + 1,
                 progress := py_trunc (of_int (i + 1) / of_int epochs * 100),
                 loss := l,
                 accuracy := 50 + of_int (i * 4) + snd (rnd i) * 2,
                 message := fmt (i + 1) epochs l\<rparr>,
             W_loop (i + 1))))"
| "worker_step rnd fmt epochs (st, W_after) =
     (st, if is_training st then W_complete else W_finally)"
| "worker_step rnd fmt epochs (st, W_complete) =
     (st\<lparr>message := ''Training completed!''\<rparr>, W_finally)"
| "worker_step rnd fmt epochs (st, W_finally) = (st\<lparr>is_training := False\<rparr>, W_done)"
| "worker_step rnd fmt epochs (st, W_done) = (st, W_done)"

text \<open>\<open>n\<close> steps of the worker, with no request in between.\<close>

definition run_worker ::
  "(int \<Rightarrow> real \<times> real) \<Rightarrow> (int \<Rightarrow> int \<Rightarrow> real \<Rightarrow> string) \<Rightarrow> int \<Rightarrow> nat
     \<Rightarrow> training_status \<times> worker_pc \<Rightarrow> training_status \<times> worker_pc" where
  "run_worker rnd fmt epochs n c = (worker_step rnd fmt epochs ^^ n) c"

text \<open>
  The epoch advances among the next \<open>n\<close> steps: the steps that leave a sleep and
  assign \<^verbatim>\<open>epoch\<close>, \<^verbatim>\<open>progress\<close>, \<^verbatim>\<open>loss\<close>, \<^verbatim>\<open>accuracy\<close> and \<^verbatim>\<open>message\<close>.
\<close>

fun is_sleep :: "worker_pc \<Rightarrow> bool" where
  "is_sleep (W_sleep i) = True"
| "is_sleep pc = False"

fun advances ::
  "(int \<Rightarrow> real \<times> real) \<Rightarrow> (int \<Rightarrow> int \<Rightarrow> real \<Rightarrow> string) \<Rightarrow> int \<Rightarrow> nat
     \<Rightarrow> training_status \<times> worker_pc \<Rightarrow> nat" where
  "advances rnd fmt epochs 0 c = 0"
| "advances rnd fmt epochs (Suc n) c =
     (if is_sleep (snd c) then 1 else 0) + advances rnd fmt epochs n (worker_step rnd fmt epochs c)"

text \<open>
  A worker in a sleep, or behind a passed test of the flag, has a write to the status
  under way that no request can call off. \<open>to_boundary\<close> is the number of steps that
  complete it: one from the sleep of an epoch (the sleep and the assignments of that
  epoch), one from the pending completion message, none elsewhere.
\<close>

fun writes_pending :: "worker_pc \<Rightarrow> bool" where
  "writes_pending (W_sleep i) = True"
| "writes_pending W_complete = True"
| "writes_pending pc = False"

fun to_boundary :: "worker_pc \<Rightarrow> nat" where
  "to_boundary (W_sleep i) = 1"
| "to_boundary W_complete = 1"
| "to_boundary pc = 0"

section \<open>Properties of the camera manager\<close>

lemma loop_write_fields [simp]:
  "is_streaming (loop_write pc m) = is_streaming m"
  "camera (loop_write pc m) = camera m"
  "loops (loop_write pc m) = loops m"
  by (cases pc; simp)+

lemma loop_pc_step_not_Exited:
  "is_streaming m \<Longrightarrow> camera m \<noteq> None \<Longrightarrow> pc \<noteq> Exited \<Longrightarrow> loop_pc_step r m pc \<noteq> Exited"
  by (cases pc) (auto split: option.splits)

lemma loop_step_keeps:
  assumes "is_streaming m" "camera m \<noteq> None" "Exited \<notin> set (loops m)"
  shows "is_streaming (loop_step i r m) \<and> camera (loop_step i r m) \<noteq> None
     \<and> Exited \<notin> set (loops (loop_step i r m))
     \<and> length (loops (loop_step i r m)) = length (loops m)"
proof (cases "i < length (loops m)")
  case True
  then have "loops m ! i \<noteq> Exited" using assms(3) by (metis nth_mem)
  then have "loop_pc_step r m (loops m ! i) \<noteq> Exited"
    using assms(1,2) by (rule loop_pc_step_not_Exited[rotated 2])
  then have "Exited \<notin> set ((loops m)[i := loop_pc_step r m (loops m ! i)])"
    using assms(3) by (metis insert_iff set_update_subset_insert subsetD)
  then show ?thesis using True assms by (simp add: loop_step_def)
next
  case False
  then show ?thesis using assms by (simp add: loop_step_def)
qed

lemma loop_steps_keep:
  "is_streaming m \<Longrightarrow> camera m \<noteq> None \<Longrightarrow> Exited \<notin> set (loops m) \<Longrightarrow>
   Exited \<notin> set (loops (fold exec (map (\<lambda>(i, r). Loop_step i r) sched) m))
   \<and> length (loops (fold exec (map (\<lambda>(i, r). Loop_step i r) sched) m)) = length (loops m)"
proof (induction sched arbitrary: m)
  case Nil
  then show ?case by simp
next
  case (Cons a sched)
  obtain i r where a: "a = (i, r)" by (cases a)
  from loop_step_keeps[OF Cons.prems, of i r] Cons.IH[of "loop_step i r m"]
  show ?case by (simp add: a)
qed

lemma length_filter_absent: "x \<notin> set xs \<Longrightarrow> length (filter (\<lambda>y. y \<noteq> x) xs) = length xs"
  by (induction xs) auto

lemma alive_no_Exited: "Exited \<notin> set (loops m) \<Longrightarrow> alive m = length (loops m)"
  by (simp add: alive_def length_filter_absent)

lemma connect_adds_loop:
  "alive (fst (connect cid (Read_ok f) m)) = Suc (alive m)"
  "alive (fst (connect_ip url (Read_ok f) m)) = Suc (alive m)"
  by (simp_all add: alive_def start_loop_def new_capture_def release_current_def
      split: option.splits)

text \<open>
  C1. The claim: over every sequence of connect and disconnect calls at most one capture
  thread is alive, a connect made while connected first stopping the thread of the
  connection before. The code: \<^verbatim>\<open>connect\<close> releases the handle of the connection before
  but never clears \<^verbatim>\<open>is_streaming\<close>, as \<^verbatim>\<open>disconnect\<close> does, and \<^verbatim>\<open>self.camera\<close> is not
  \<^verbatim>\<open>None\<close> at any moment of the call. Two connects that succeed, one after the other,
  leave two threads alive, and whatever steps the two threads take afterwards, in any
  order, none of them leaves its loop.
\<close>

theorem reconnect_leaves_two_loops:
  "alive (run ([Connect c1 (Read_ok f1), Connect c2 (Read_ok f2)]
        @ map (\<lambda>(i, r). Loop_step i r) sched) init_mgr) = 2"
proof -
  let ?m = "run [Connect c1 (Read_ok f1), Connect c2 (Read_ok f2)] init_mgr"
  have m: "is_streaming ?m" "camera ?m \<noteq> None" "loops ?m = [At_while, At_while]"
    by (simp_all add: run_def init_mgr_def release_current_def new_capture_def start_loop_def)
  then have "Exited \<notin> set (loops ?m)" by simp
  from loop_steps_keep[OF m(1,2) this, of sched] m(3)
  show ?thesis by (simp add: run_def alive_no_Exited)
qed

text \<open>
  The state in which \<^verbatim>\<open>disconnect\<close> returns, from any state: the streaming flag is
  false, there is no handle (the one held before is among the released ones), no
  recorded source and no buffered frame; \<^verbatim>\<open>get_frame_base64\<close> evaluated on that very
  state returns \<^verbatim>\<open>None\<close>, and a second \<^verbatim>\<open>disconnect\<close> changes nothing more.
\<close>

lemma disconnect_clears:
  "is_streaming (disconnect m) = False \<and> camera (disconnect m) = None
   \<and> camera_id (disconnect m) = None \<and> frame (disconnect m) = None
   \<and> set (released (disconnect m)) = set (released m) \<union> set_option (camera m)
   \<and> get_frame_base64 imencode b64 (disconnect m) = None
   \<and> disconnect (disconnect m) = disconnect m"
  by (simp add: disconnect_def get_frame_base64_def Let_def split: option.splits)

lemma loop_pc_step_no_camera:
  "camera m = None \<Longrightarrow> no_read_pending pc \<Longrightarrow> no_read_pending (loop_pc_step r m pc)"
  by (cases pc) simp_all

lemma loop_write_no_pending: "no_read_pending pc \<Longrightarrow> loop_write pc m = m"
  by (cases pc) simp_all

lemma loop_step_after_disconnect:
  assumes "camera m = None" "\<forall>pc \<in> set (loops m). no_read_pending pc"
  shows "camera (loop_step i r m) = None
     \<and> (\<forall>pc \<in> set (loops (loop_step i r m)). no_read_pending pc)
     \<and> frame (loop_step i r m) = frame m
     \<and> is_streaming (loop_step i r m) = is_streaming m"
proof (cases "i < length (loops m)")
  case True
  then have p: "no_read_pending (loops m ! i)" using assms(2) by simp
  then have "no_read_pending (loop_pc_step r m (loops m ! i))"
    using assms(1) by (simp add: loop_pc_step_no_camera)
  then have "\<forall>pc \<in> set ((loops m)[i := loop_pc_step r m (loops m ! i)]). no_read_pending pc"
    using assms(2) by (metis insert_iff set_update_subset_insert subsetD)
  then show ?thesis using True assms(1) p by (simp add: loop_step_def loop_write_no_pending)
next
  case False
  then show ?thesis using assms by (simp add: loop_step_def)
qed

lemma loop_steps_after_disconnect:
  "camera m = None \<Longrightarrow> \<forall>pc \<in> set (loops m). no_read_pending pc \<Longrightarrow>
   frame (fold exec (map (\<lambda>(i, r). Loop_step i r) sched) m) = frame m
   \<and> camera (fold exec (map (\<lambda>(i, r). Loop_step i r) sched) m) = None
   \<and> is_streaming (fold exec (map (\<lambda>(i, r). Loop_step i r) sched) m) = is_streaming m"
proof (induction sched arbitrary: m)
  case Nil
  then show ?case by simp
next
  case (Cons a sched)
  obtain i r where a: "a = (i, r)" by (cases a)
  from loop_step_after_disconnect[OF Cons.prems, of i r] Cons.IH[of "loop_step i r m"]
  show ?case by (simp add: a)
qed

text \<open>
  C2. The claim: after any \<^verbatim>\<open>disconnect\<close> there is no buffered frame, so the next
  \<^verbatim>\<open>get_frame_base64\<close> returns \<^verbatim>\<open>None\<close>. The code: \<^verbatim>\<open>disconnect\<close> assigns
  \<^verbatim>\<open>self.frame = None\<close> without taking the lock and without waiting for the capture
  thread. A thread that has returned from \<^verbatim>\<open>self.camera.read()\<close> with a frame when
  \<^verbatim>\<open>disconnect\<close> runs assigns that frame afterwards; the thread then leaves its loop and
  nothing clears the frame again, whatever steps follow: the next \<^verbatim>\<open>get_frame_base64\<close>
  encodes a frame of the camera that was disconnected.
\<close>

theorem frame_written_after_disconnect:
  "(let m = run ([Connect cid (Read_ok f1), Loop_step 0 r0, Loop_step 0 (Some f2), Disconnect,
                  Loop_step 0 r1] @ map (\<lambda>(i, r). Loop_step i r) sched) init_mgr
    in frame m = Some f2 \<and> is_streaming m = False \<and> camera m = None
       \<and> get_frame_base64 imencode b64 m
           = (case imencode f2 of Some jpeg \<Rightarrow> Some (b64 jpeg) | None \<Rightarrow> None))"
proof -
  let ?m = "run [Connect cid (Read_ok f1), Loop_step 0 r0, Loop_step 0 (Some f2), Disconnect,
                  Loop_step 0 r1] init_mgr"
  have m: "camera ?m = None" "loops ?m = [At_sleep]" "frame ?m = Some f2" "is_streaming ?m = False"
    by (simp_all add: run_def init_mgr_def release_current_def new_capture_def start_loop_def
        loop_step_def disconnect_def)
  then have p: "\<forall>pc \<in> set (loops ?m). no_read_pending pc" by simp
  let ?n = "fold exec (map (\<lambda>(i, r). Loop_step i r) sched) ?m"
  have "frame ?n = Some f2 \<and> camera ?n = None \<and> is_streaming ?n = False"
    using loop_steps_after_disconnect[OF m(1) p, of sched] m(3,4) by simp
  moreover have "run ([Connect cid (Read_ok f1), Loop_step 0 r0, Loop_step 0 (Some f2), Disconnect,
                  Loop_step 0 r1] @ map (\<lambda>(i, r). Loop_step i r) sched) init_mgr = ?n"
    by (simp add: run_def)
  ultimately show ?thesis
    by (simp add: get_frame_base64_def Let_def)
qed

text \<open>
  C9. When \<^verbatim>\<open>connect\<close> or \<^verbatim>\<open>connect_ip\<close> fails because the source does not open or
  because the test read returns no frame, the answer is a failure, yet \<^verbatim>\<open>self.camera\<close>
  holds the handle just constructed, so the status route reports \<^verbatim>\<open>connected\<close> true; and
  the handle held before the call, if any, has been released.
\<close>

theorem failed_connect_keeps_handle:
  assumes "p = Not_opened \<or> p = Read_fails"
    and "res = connect cid p m \<or> res = connect_ip url p m"
  shows "fst (snd res) = False \<and> camera (fst res) = Some (created m)
     \<and> fst (camera_status (fst res)) = True
     \<and> set_option (camera m) \<subseteq> set (released (fst res))"
  using assms
  by (auto simp: camera_status_def new_capture_def release_current_def split: option.splits)

theorem failed_connect_keeps_handle_witness:
  "(let m0 = fst (connect 0 (Read_ok (7::nat)) init_mgr); res = connect_ip ''rtsp://cam'' Read_fails m0
    in camera m0 = Some 0 \<and> fst (snd res) = False \<and> camera (fst res) = Some 1
       \<and> fst (camera_status (fst res)) = True \<and> 0 \<in> set (released (fst res)))"
  using failed_connect_keeps_handle [of Read_fails
      "connect_ip ''rtsp://cam'' Read_fails (fst (connect 0 (Read_ok (7::nat)) init_mgr))"
      0 "fst (connect 0 (Read_ok (7::nat)) init_mgr)" "''rtsp://cam''"]
  by (simp add: init_mgr_def release_current_def new_capture_def start_loop_def camera_status_def)

section \<open>Properties of the zone persistence\<close>

lemma is_zone_doc_iff: "is_zone_doc v \<longleftrightarrow> (\<exists>zs. v = zone_doc zs)"
  by (induction v rule: is_zone_doc.induct) (auto simp: zone_doc_def)

lemma is_zone_doc_zone_doc [simp]: "is_zone_doc (zone_doc zs)"
  by (simp add: zone_doc_def)

lemma save_zones_zone_doc:
  "zone_config s = zone_doc old \<Longrightarrow>
   save_zones (JDict d) s
     = Inr (\<lparr>zone_config = zone_doc (requested_zones d),
             zones_file = Json_file (zone_doc (requested_zones d))\<rparr>, (True, ''Zones saved''))"
  by (simp add: save_zones_def zone_doc_def requested_zones_def)

lemma own_store_init: "own_store init_zone_store"
  by (simp add: own_store_def init_zone_store_def init_zone_config_def zone_doc_def)

lemma own_store_exec: "own_store s \<Longrightarrow> own_store (zone_exec e s)"
proof (cases e)
  case (Save data)
  assume o: "own_store s"
  then obtain old where old: "zone_config s = zone_doc old"
    by (auto simp: own_store_def is_zone_doc_iff)
  show ?thesis
  proof (cases data)
    case (JDict d)
    show ?thesis using save_zones_zone_doc[OF old, of d]
      by (auto simp: Save JDict own_store_def)
  qed (use o in \<open>simp_all add: Save save_zones_def\<close>)
next
  case Load
  assume "own_store s"
  then show ?thesis
    by (cases "zones_file s") (auto simp: Load own_store_def load_zones_def)
qed (auto simp: own_store_def)

lemma own_store_run: "own_store (zone_run es)"
proof -
  have "own_store s \<Longrightarrow> own_store (fold zone_exec es s)" for s
    by (induction es arbitrary: s) (simp_all add: own_store_exec)
  then show ?thesis by (simp add: zone_run_def own_store_init)
qed

lemma save_zones_not_dict:
  "(\<forall>kvs. c \<noteq> JDict kvs) \<Longrightarrow> save_zones (JDict d) \<lparr>zone_config = c, zones_file = f\<rparr> = Inl TypeError"
  by (cases c) (simp_all add: save_zones_def)

text \<open>
  C7, as the code has it. \<^verbatim>\<open>save_zones\<close>, called with a dict as request body while
  \<^verbatim>\<open>zone_config\<close> is a dict, writes the whole file anew, whatever the file was before
  (\<open>f\<close> is arbitrary and the result does not mention it). What it writes is
  \<^verbatim>\<open>zone_config\<close> with one entry assigned: the entry \<^verbatim>\<open>zones\<close> is the zones of the
  request (the empty list when the request has none), with nothing of the zones held
  before; every other key of \<^verbatim>\<open>zone_config\<close> keeps its value and its place.
\<close>

theorem save_zones_replaces_zones_entry:
  "(let doc = JDict (AList.update ''zones'' (requested_zones d) kvs)
    in save_zones (JDict d) \<lparr>zone_config = JDict kvs, zones_file = f\<rparr>
         = Inr (\<lparr>zone_config = doc, zones_file = Json_file doc\<rparr>, (True, ''Zones saved''))
       \<and> dict_get ''zones'' dflt doc = Inr (requested_zones d)
       \<and> map_of (AList.update ''zones'' (requested_zones d) kvs)
           = (map_of kvs)(''zones'' \<mapsto> requested_zones d)
       \<and> map fst (AList.update ''zones'' (requested_zones d) kvs)
           = (if ''zones'' \<in> fst ` set kvs then map fst kvs else map fst kvs @ [''zones'']))"
  by (simp add: save_zones_def requested_zones_def Let_def update_conv' update_keys)

text \<open>
  The file after a save is not made of the zones of the request alone: when a document
  with further content was stored and loaded before, that content is written again
  beside the new zones, and the same request on the initial store writes another file.
\<close>

theorem save_zones_merge_counterexample:
  "(let stored = JDict [(''zones'', JList []), (''image'', JStr ''ref.png''), (''note'', JInt 5)];
        zs = JList [JList [JList [JInt 0, JInt 0], JList [JInt 1, JInt 0], JList [JInt 1, JInt 1]]];
        s0 = fst (load_zones (init_zone_store\<lparr>zones_file := Json_file stored\<rparr>))
    in save_zones (JDict [(''zones'', zs)]) s0
         = Inr (\<lparr>zone_config = JDict [(''zones'', zs), (''image'', JStr ''ref.png''), (''note'', JInt 5)],
                 zones_file = Json_file
                   (JDict [(''zones'', zs), (''image'', JStr ''ref.png''), (''note'', JInt 5)])\<rparr>,
                (True, ''Zones saved''))
       \<and> save_zones (JDict [(''zones'', zs)]) s0 \<noteq> save_zones (JDict [(''zones'', zs)]) init_zone_store)"
  by (simp add: save_zones_def load_zones_def init_zone_store_def init_zone_config_def
      requested_zones_def Let_def)

text \<open>
  C8. After \<^verbatim>\<open>save_zones\<close>, at the end of any history, \<^verbatim>\<open>load_zones\<close> returns the
  document that was written, and its zones are the zones of the request. For the request
  \<^verbatim>\<open>{zones: [[[0,0],[1,0],[1,1]]]}\<close> on the initial store the answer is that list of
  zones together with the \<^verbatim>\<open>image\<close> entry of the initial document.
\<close>

theorem save_then_load_roundtrip:
  "(case save_zones (JDict d) (zone_run es) of
      Inl e \<Rightarrow> False
    | Inr (s', resp) \<Rightarrow>
        zones_file s' = Json_file (zone_doc (requested_zones d))
        \<and> load_zones s' = (s', zone_doc (requested_zones d))
        \<and> dict_get ''zones'' dflt (snd (load_zones s')) = dict_get ''zones'' (JList []) (JDict d))"
proof -
  obtain old where "zone_config (zone_run es) = zone_doc old"
    using own_store_run[of es] by (auto simp: own_store_def is_zone_doc_iff)
  from save_zones_zone_doc[OF this, of d]
  show ?thesis by (simp add: load_zones_def zone_doc_def requested_zones_def)
qed

theorem save_then_load_roundtrip_witness:
  "(case save_zones
           (JDict [(''zones'', JList [JList [JList [JInt 0, JInt 0], JList [JInt 1, JInt 0],
                                             JList [JInt 1, JInt 1]]])])
           (zone_run []) of
      Inl e \<Rightarrow> False
    | Inr (s', resp) \<Rightarrow>
        snd (load_zones s')
          = JDict [(''zones'', JList [JList [JList [JInt 0, JInt 0], JList [JInt 1, JInt 0],
                                             JList [JInt 1, JInt 1]]]),
                   (''image'', JNull)])"
  using save_then_load_roundtrip [where
      d = "[(''zones'', JList [JList [JList [JInt 0, JInt 0], JList [JInt 1, JInt 0],
                                             JList [JInt 1, JInt 1]]])]"
      and es = "[]" and dflt = JNull]
  by (simp add: save_zones_def load_zones_def init_zone_store_def init_zone_config_def
      zone_run_def)



section \<open>Properties of the training simulator\<close>

lemma run_worker_0 [simp]: "run_worker rnd fmt epochs 0 c = c"
  by (simp add: run_worker_def)

lemma run_worker_Suc: "run_worker rnd fmt epochs (Suc n) c = run_worker rnd fmt epochs n (worker_step rnd fmt epochs c)"
  by (simp add: run_worker_def funpow_swap1)

lemma run_worker_add:
  "run_worker rnd fmt epochs (m + n) c = run_worker rnd fmt epochs n (run_worker rnd fmt epochs m c)"
  by (induction m arbitrary: c) (simp_all add: run_worker_Suc)

lemma worker_step_keeps_stopped:
  "\<not> is_training st \<Longrightarrow> \<not> is_training (fst (worker_step rnd fmt epochs (st, pc)))"
  by (cases pc) (simp_all add: Let_def)

lemma run_worker_keeps_stopped:
  "\<not> is_training (fst c) \<Longrightarrow> \<not> is_training (fst (run_worker rnd fmt epochs n c))"
proof (induction n arbitrary: c)
  case 0
  then show ?case by simp
next
  case (Suc n)
  obtain st pc where c: "c = (st, pc)" by (cases c)
  with Suc.prems have "\<not> is_training (fst (worker_step rnd fmt epochs c))"
    by (simp add: worker_step_keeps_stopped)
  then show ?case by (simp add: run_worker_Suc Suc.IH)
qed

lemma worker_step_frozen:
  "\<not> is_training st \<Longrightarrow> \<not> writes_pending pc \<Longrightarrow>
   fst (worker_step rnd fmt epochs (st, pc)) = st \<and> \<not> writes_pending (snd (worker_step rnd fmt epochs (st, pc)))"
  by (cases pc) simp_all

lemma writes_pending_sleep: "\<not> writes_pending pc \<Longrightarrow> \<not> is_sleep pc"
  by (cases pc) simp_all

lemma run_worker_frozen:
  "\<not> is_training st \<Longrightarrow> \<not> writes_pending pc \<Longrightarrow>
   fst (run_worker rnd fmt epochs n (st, pc)) = st
   \<and> \<not> writes_pending (snd (run_worker rnd fmt epochs n (st, pc)))
   \<and> advances rnd fmt epochs n (st, pc) = 0"
proof (induction n arbitrary: pc)
  case 0
  then show ?case by simp
next
  case (Suc n)
  obtain pc' where s: "worker_step rnd fmt epochs (st, pc) = (st, pc')" "\<not> writes_pending pc'"
    using worker_step_frozen[OF Suc.prems, of rnd fmt epochs]
    by (cases "worker_step rnd fmt epochs (st, pc)") auto
  from Suc.IH[OF Suc.prems(1) s(2)] s(1) writes_pending_sleep[OF Suc.prems(2)]
  show ?case by (simp add: run_worker_Suc)
qed

lemma worker_stopped_done:
  "\<not> is_training st \<Longrightarrow> \<not> writes_pending pc \<Longrightarrow> snd (run_worker rnd fmt epochs 3 (st, pc)) = W_done"
  by (cases pc) (simp_all add: run_worker_def eval_nat_numeral)

lemma at_boundary:
  "\<not> is_training st \<Longrightarrow>
   \<not> is_training (fst (run_worker rnd fmt epochs (to_boundary pc) (st, pc)))
   \<and> \<not> writes_pending (snd (run_worker rnd fmt epochs (to_boundary pc) (st, pc)))"
  by (cases pc) (simp_all add: run_worker_def Let_def)
lemma run_worker_done: "run_worker rnd fmt epochs k (st, W_done) = (st, W_done)"
  by (induction k) (simp_all add: run_worker_Suc)

lemma advances_done: "advances rnd fmt epochs k (st, W_done) = 0"
  by (induction k) simp_all

lemma advances_add:
  "advances rnd fmt epochs (m + n) c
   = advances rnd fmt epochs m c + advances rnd fmt epochs n (run_worker rnd fmt epochs m c)"
  by (induction m arbitrary: c) (simp_all add: run_worker_Suc)

lemma three_epochs_run:
  "is_training st1 \<Longrightarrow>
   (\<exists>st. run_worker rnd fmt 3 10 (st1, W_loop 0) = (st, W_done)
       \<and> progress st = 100 \<and> \<not> is_training st \<and> message st = ''Training completed!''
       \<and> epoch st = 3)
   \<and> advances rnd fmt 3 10 (st1, W_loop 0) = 3
   \<and> (\<forall>n<10. snd (run_worker rnd fmt 3 n (st1, W_loop 0)) \<noteq> W_done)"
  by (simp add: run_worker_def eval_nat_numeral Let_def py_trunc_def All_less_Suc)

text \<open>
  C3. \<^verbatim>\<open>stop_training\<close> clears \<^verbatim>\<open>is_training\<close>, and no step of the worker sets it again.
  The worker completes at most the epoch whose sleep had begun (or the completion
  message whose test had passed); from then on, at every later step, the status stays
  as it is, no epoch advance occurs and no write is pending, and the worker has
  finished within three steps.
\<close>

theorem stop_takes_effect_at_boundary:
  "(let c0 = (fst (stop_training st), pc);
        c = run_worker rnd fmt epochs (to_boundary pc) c0
    in (\<forall>n. \<not> is_training (fst (run_worker rnd fmt epochs n c0)))
       \<and> (\<forall>n. fst (run_worker rnd fmt epochs n c) = fst c
               \<and> \<not> writes_pending (snd (run_worker rnd fmt epochs n c))
               \<and> advances rnd fmt epochs n c = 0)
       \<and> snd (run_worker rnd fmt epochs 3 c) = W_done)"
proof -
  let ?init = "(fst (stop_training st), pc)"
  let ?c = "run_worker rnd fmt epochs (to_boundary pc) ?init"
  have s: "\<not> is_training (fst (stop_training st))" by (simp add: stop_training_def)
  then have a: "\<forall>n. \<not> is_training (fst (run_worker rnd fmt epochs n ?init))"
    by (simp add: run_worker_keeps_stopped)
  obtain st' pc' where c: "?c = (st', pc')" by (cases ?c)
  from at_boundary[OF s, of rnd fmt epochs pc] c
  have b: "\<not> is_training st'" "\<not> writes_pending pc'" by simp_all
  have "\<forall>n. fst (run_worker rnd fmt epochs n ?c) = fst ?c
               \<and> \<not> writes_pending (snd (run_worker rnd fmt epochs n ?c))
               \<and> advances rnd fmt epochs n ?c = 0"
    unfolding c using run_worker_frozen[OF b, of rnd fmt epochs] by simp
  moreover have "snd (run_worker rnd fmt epochs 3 ?c) = W_done"
    unfolding c using worker_stopped_done[OF b] by simp
  ultimately show ?thesis using a unfolding Let_def by blast
qed

text \<open>
  C4. While \<^verbatim>\<open>is_training\<close> is set, \<^verbatim>\<open>start_training\<close> answers with the failure
  \<^verbatim>\<open>Training already in progress\<close>, starts no thread and leaves every field of the status
  as it was, whatever the request body.
\<close>

theorem start_while_running_rejected:
  "is_training st \<Longrightarrow>
   start_training parse data st = Inr (st, (False, ''Training already in progress''), None)"
  by (simp add: start_training_def)

theorem start_while_running_rejected_witness:
  "(let st = \<lparr>is_training = True, progress = 33, epoch = 1, total_epochs = 3, loss = 5/2,
              accuracy = 51, message = ''Epoch 1/3''\<rparr>
    in is_training st
       \<and> start_training (\<lambda>s. None) (JDict [(''type'', JStr ''detection''), (''epochs'', JInt 5)]) st
           = Inr (st, (False, ''Training already in progress''), None))"
  using start_while_running_rejected [of "\<lparr>is_training = True, progress = 33, epoch = 1, total_epochs = 3, loss = 5/2,
              accuracy = 51, message = ''Epoch 1/3''\<rparr>" "\<lambda>s. None"
              "JDict [(''type'', JStr ''detection''), (''epochs'', JInt 5)]"]
  by (simp add: Let_def)

text \<open>
  C5. A job started with \<^verbatim>\<open>epochs = 3\<close> while none is running, and left alone by
  requests: the worker finishes at its tenth step and not before; it has then made
  exactly three epoch advances, \<^verbatim>\<open>progress\<close> is 100, \<^verbatim>\<open>epoch\<close> is 3, \<^verbatim>\<open>is_training\<close> is
  false and the message is \<^verbatim>\<open>Training completed!\<close>; further steps change nothing.
\<close>

theorem three_epochs_complete:
  assumes "\<not> is_training st0" and "map_of kvs ''epochs'' = Some (JInt 3)"
  shows "(case start_training parse (JDict kvs) st0 of
            Inr (st1, resp, Some (ty, epochs)) \<Rightarrow>
              resp = (True, ''Training started'') \<and> epochs = 3
              \<and> (\<forall>k. \<exists>st. run_worker rnd fmt epochs (10 + k) (st1, W_loop 0) = (st, W_done)
                      \<and> progress st = 100 \<and> \<not> is_training st
                      \<and> message st = ''Training completed!'' \<and> epoch st = 3)
              \<and> (\<forall>k. advances rnd fmt epochs (10 + k) (st1, W_loop 0) = 3)
              \<and> (\<forall>n<10. snd (run_worker rnd fmt epochs n (st1, W_loop 0)) \<noteq> W_done)
          | _ \<Rightarrow> False)"
proof -
  let ?st1 = "\<lparr>is_training = True, progress = 0, epoch = 0, total_epochs = 3, loss = 0,
      accuracy = 0, message = ''Starting training...''\<rparr>"
  obtain ty where ty: "dict_get ''type'' (JStr ''detection'') (JDict kvs) = Inr ty" by simp
  have start: "start_training parse (JDict kvs) st0
      = Inr (?st1, (True, ''Training started''), Some (ty, 3))"
    using assms ty by (simp add: start_training_def)
  have run: "(\<exists>st. run_worker rnd fmt 3 10 (?st1, W_loop 0) = (st, W_done)
       \<and> progress st = 100 \<and> \<not> is_training st \<and> message st = ''Training completed!''
       \<and> epoch st = 3)
     \<and> advances rnd fmt 3 10 (?st1, W_loop 0) = 3
     \<and> (\<forall>n<10. snd (run_worker rnd fmt 3 n (?st1, W_loop 0)) \<noteq> W_done)"
    by (rule three_epochs_run) simp
  then obtain st where st: "run_worker rnd fmt 3 10 (?st1, W_loop 0) = (st, W_done)"
    "progress st = 100" "\<not> is_training st" "message st = ''Training completed!''" "epoch st = 3"
    by blast
  have later: "run_worker rnd fmt 3 (10 + k) (?st1, W_loop 0) = (st, W_done)" for k
    by (simp add: run_worker_add st(1) run_worker_done)
  have count: "advances rnd fmt 3 (10 + k) (?st1, W_loop 0) = 3" for k
    using run by (simp add: advances_add st(1) advances_done)
  show ?thesis
    using run later st(2-5) count by (simp add: start)
qed

theorem three_epochs_complete_witness:
  "\<not> is_training init_training_status
   \<and> map_of [(''type'', JStr ''detection''), (''epochs'', JInt 3)] ''epochs'' = Some (JInt 3)
   \<and> start_training (\<lambda>s. None) (JDict [(''type'', JStr ''detection''), (''epochs'', JInt 3)])
        init_training_status
      = Inr (\<lparr>is_training = True, progress = 0, epoch = 0, total_epochs = 3, loss = 0,
               accuracy = 0, message = ''Starting training...''\<rparr>,
             (True, ''Training started''), Some (JStr ''detection'', 3))
   \<and> run_worker (\<lambda>i. (0, 0)) (\<lambda>i n l. ''Epoch'') 3 10
        (\<lparr>is_training = True, progress = 0, epoch = 0, total_epochs = 3, loss = 0,
           accuracy = 0, message = ''Starting training...''\<rparr>, W_loop 0)
      = (\<lparr>is_training = False, progress = 100, epoch = 3, total_epochs = 3, loss = 21 / 10,
           accuracy = 58, message = ''Training completed!''\<rparr>, W_done)
   \<and> advances (\<lambda>i. (0, 0)) (\<lambda>i n l. ''Epoch'') 3 10
        (\<lparr>is_training = True, progress = 0, epoch = 0, total_epochs = 3, loss = 0,
           accuracy = 0, message = ''Starting training...''\<rparr>, W_loop 0) = 3"
  using three_epochs_complete [where ?st0.0 = init_training_status
      and kvs = "[(''type'', JStr ''detection''), (''epochs'', JInt 3)]"
      and parse = "\<lambda>s. None" and rnd = "\<lambda>i. (0, 0)" and fmt = "\<lambda>i n l. ''Epoch''"]
  by (simp add: init_training_status_def start_training_def run_worker_def eval_nat_numeral
      py_trunc_def)

end
